theory Spec2Isabelle
  imports Main
begin

section \<open>JavaScript values and strings\<close>

text \<open>
  The values that flow through the toolkit's functions. Numbers are kept as integers; an
  object is known by its identity only. Strings are lists of characters. The same type
  serves the PHP side, where \<open>Null\<close> is PHP's \<^verbatim>\<open>null\<close> and \<open>Undefined\<close> an array key
  that is not set.
\<close>

datatype jsval = Undefined | Null | Bool bool | Num int | Str string | Obj nat

text \<open>Truthiness as tested by \<^verbatim>\<open>if ( x )\<close> and \<^verbatim>\<open>!!x\<close>.\<close>

fun truthy :: "jsval \<Rightarrow> bool" where
  "truthy Undefined = False"
| "truthy Null = False"
| "truthy (Bool b) = b"
| "truthy (Num n) = (n \<noteq> 0)"
| "truthy (Str s) = (s \<noteq> [])"
| "truthy (Obj _) = True"

text \<open>Decimal digits, and the decimal rendering of a number.\<close>

definition digit_char :: "nat \<Rightarrow> char" where
  "digit_char d = ''0123456789'' ! d"

fun show_nat :: "nat \<Rightarrow> string" where
  "show_nat n = (if n < 10 then [digit_char n] else show_nat (n div 10) @ [digit_char (n mod 10)])"

declare show_nat.simps [simp del]

text \<open>The string a value turns into where JavaScript needs one (\<^verbatim>\<open>String( x )\<close>).\<close>

fun toString :: "jsval \<Rightarrow> string" where
  "toString Undefined = ''undefined''"
| "toString Null = ''null''"
| "toString (Bool b) = (if b then ''true'' else ''false'')"
| "toString (Num n) = (if n < 0 then ''-'' @ show_nat (nat (- n)) else show_nat (nat n))"
| "toString (Str s) = s"
| "toString (Obj _) = ''[object Object]''"

text \<open>The digits a regular expression's digit class matches, and \<^verbatim>\<open>parseInt( n, 10 )\<close> on a
  string of digits.\<close>

definition is_digit :: "char \<Rightarrow> bool" where
  "is_digit c = (c \<in> set ''0123456789'')"

definition digit_value :: "char \<Rightarrow> nat" where
  "digit_value c = of_char c - 48"

definition parseInt :: "string \<Rightarrow> nat" where
  "parseInt ds = foldl (\<lambda>a c. 10 * a + digit_value c) 0 ds"

text \<open>
  White space as \<^verbatim>\<open>String.prototype.trim\<close> and the class-name splitting of jQuery see it,
  within the characters a \<^typ>\<open>char\<close> can hold: tab, line feed, vertical tab, form feed,
  carriage return, space and the no-break space.
\<close>

definition is_ws :: "char \<Rightarrow> bool" where
  "is_ws c = (c \<in> {CHR 0x09, CHR 0x0A, CHR 0x0B, CHR 0x0C, CHR 0x0D, CHR 0x20, CHR 0xA0})"

definition trim :: "string \<Rightarrow> string" where
  "trim s = rev (dropWhile is_ws (rev (dropWhile is_ws s)))"

text \<open>\<^verbatim>\<open>String.prototype.toLowerCase\<close> on the letters a node name is made of.\<close>

definition lower_char :: "char \<Rightarrow> char" where
  "lower_char c =
     (case map_of (zip ''ABCDEFGHIJKLMNOPQRSTUVWXYZ'' ''abcdefghijklmnopqrstuvwxyz'') c of
        Some l \<Rightarrow> l
      | None \<Rightarrow> c)"

definition toLowerCase :: "string \<Rightarrow> string" where
  "toLowerCase s = map lower_char s"

text \<open>
  The class list of a node is a set of names. The argument of jQuery's \<^verbatim>\<open>addClass\<close>,
  \<^verbatim>\<open>removeClass\<close> and \<^verbatim>\<open>toggleClass\<close> is split into its maximal runs of characters that
  are not white space, each run one class name.
\<close>

fun class_names_acc :: "string \<Rightarrow> string \<Rightarrow> string list" where
  "class_names_acc cur [] = (if cur = [] then [] else [rev cur])"
| "class_names_acc cur (c # s) =
     (if is_ws c then (if cur = [] then [] else [rev cur]) @ class_names_acc [] s
      else class_names_acc (c # cur) s)"

definition class_names :: "string \<Rightarrow> string list" where
  "class_names s = class_names_acc [] s"

definition addClass :: "string \<Rightarrow> string set \<Rightarrow> string set" where
  "addClass names cls = cls \<union> set (class_names names)"

definition removeClass :: "string \<Rightarrow> string set \<Rightarrow> string set" where
  "removeClass names cls = cls - set (class_names names)"

definition toggleClass :: "string \<Rightarrow> bool \<Rightarrow> string set \<Rightarrow> string set" where
  "toggleClass names state cls = (if state then addClass names cls else removeClass names cls)"

section \<open>Localisation: OO.ui.getLocalValue and OO.ui.msg\<close>

text \<open>
  An object keyed by language code is the list of its enumerable properties, in the order
  \<^verbatim>\<open>for ( lang in obj )\<close> visits them; \<^verbatim>\<open>obj[key]\<close> is the first entry under the key and
  \<^verbatim>\<open>undefined\<close> when there is none. An argument used as a key may be omitted or \<^verbatim>\<open>null\<close>:
  the property looked up is then the one named \<^verbatim>\<open>undefined\<close> or \<^verbatim>\<open>null\<close>.
\<close>

type_synonym langObject = "(string \<times> jsval) list"

datatype keyArg = Omitted | NullKey | Key string

fun key_of :: "keyArg \<Rightarrow> string" where
  "key_of Omitted = ''undefined''"
| "key_of NullKey = ''null''"
| "key_of (Key s) = s"

definition entry :: "langObject \<Rightarrow> string \<Rightarrow> jsval" where
  "entry obj k = (case map_of obj k of None \<Rightarrow> Undefined | Some v \<Rightarrow> v)"

text \<open>\<^verbatim>\<open>OO.ui.getUserLanguages\<close>: the default implementation returns English only.\<close>

definition getUserLanguages :: "string list" where
  "getUserLanguages = [''en'']"

text \<open>The loop over the user's languages: the entry of the first language whose entry is
  truthy, \<open>None\<close> when the loop ends without returning.\<close>

fun knownUserLanguage :: "langObject \<Rightarrow> string list \<Rightarrow> jsval option" where
  "knownUserLanguage obj [] = None"
| "knownUserLanguage obj (lang # langs) =
     (if truthy (entry obj lang) then Some (entry obj lang) else knownUserLanguage obj langs)"

text \<open>\<^verbatim>\<open>for ( lang in obj ) { return obj[lang]; } return undefined;\<close>\<close>

definition firstExisting :: "langObject \<Rightarrow> jsval" where
  "firstExisting obj = (case obj of [] \<Rightarrow> Undefined | (lang, _) # _ \<Rightarrow> entry obj lang)"

text \<open>\<^verbatim>\<open>OO.ui.getLocalValue\<close>, with the list \<^verbatim>\<open>OO.ui.getUserLanguages()\<close> returns as a
  parameter (environments override that function), and with the default list.\<close>

definition getLocalValueFor :: "string list \<Rightarrow> langObject \<Rightarrow> keyArg \<Rightarrow> keyArg \<Rightarrow> jsval" where
  "getLocalValueFor langs obj lang fallback =
     (if truthy (entry obj (key_of lang)) then entry obj (key_of lang)
      else case knownUserLanguage obj langs of
        Some v \<Rightarrow> v
      | None \<Rightarrow>
          (if truthy (entry obj (key_of fallback)) then entry obj (key_of fallback)
           else firstExisting obj))"

definition getLocalValue :: "langObject \<Rightarrow> keyArg \<Rightarrow> keyArg \<Rightarrow> jsval" where
  "getLocalValue obj lang fallback = getLocalValueFor getUserLanguages obj lang fallback"

text \<open>
  The message store of the default implementation of \<^verbatim>\<open>OO.ui.msg\<close>.
\<close>

definition messages :: "(string \<times> string) list" where
  "messages =
     [(''ooui-dialog-action-close'', ''Close''),
      (''ooui-outline-control-move-down'', ''Move item down''),
      (''ooui-outline-control-move-up'', ''Move item up''),
      (''ooui-toolbar-more'', ''More'')]"

text \<open>
  The global \<^verbatim>\<open>message.replace\<close> of the source, whose pattern is a dollar sign followed by
  one or more digits: scanning from the left, a dollar sign followed by at least one digit
  matches together with all the digits that follow it; the match is replaced by what \<open>f\<close>
  returns for the digits and scanning goes on behind the match. Any other character is
  copied.
\<close>

function replace_refs :: "(string \<Rightarrow> string) \<Rightarrow> string \<Rightarrow> string" where
  "replace_refs f [] = []"
| "replace_refs f (c # s) =
     (if c = CHR ''$'' \<and> takeWhile is_digit s \<noteq> []
      then f (takeWhile is_digit s) @ replace_refs f (dropWhile is_digit s)
      else c # replace_refs f s)"
  by pat_completeness auto
termination
  by (relation "measure (\<lambda>(f, s). length s)") (auto simp: le_imp_less_Suc length_dropWhile_le)

text \<open>\<^verbatim>\<open>params[i - 1]\<close>: \<^verbatim>\<open>undefined\<close> outside the array, also at index \<open>-1\<close>.\<close>

definition paramAt :: "jsval list \<Rightarrow> nat \<Rightarrow> jsval" where
  "paramAt params i = (if 0 < i \<and> i - 1 < length params then params ! (i - 1) else Undefined)"

text \<open>The replacement callback; \<^verbatim>\<open>replace\<close> turns what it returns into a string.\<close>

definition substituteParam :: "jsval list \<Rightarrow> string \<Rightarrow> string" where
  "substituteParam params n =
     (let i = parseInt n in
      if paramAt params i \<noteq> Undefined then toString (paramAt params i) else ''$'' @ n)"

text \<open>\<^verbatim>\<open>OO.ui.msg\<close> over a message store, and over the store of the source. A key without
  an entry has no string message, so the placeholder is returned.\<close>

definition msgFrom :: "(string \<times> string) list \<Rightarrow> string \<Rightarrow> jsval list \<Rightarrow> string" where
  "msgFrom store key params =
     (case map_of store key of
        Some message \<Rightarrow> replace_refs (substituteParam params) message
      | None \<Rightarrow> ''['' @ key @ '']'')"

definition msg :: "string \<Rightarrow> jsval list \<Rightarrow> string" where
  "msg key params = msgFrom messages key params"

text \<open>
  What the documentation of \<^verbatim>\<open>OO.ui.msg\<close> says, stated on its own: a message is a sequence
  of plain characters and of references \<open>$n\<close>. In a segmentation of a message every reference
  has at least one digit and takes all the digits that follow the dollar sign, and no dollar
  sign that is followed by a digit is left as a plain character. A plain character stands for
  itself; a reference stands for its parameter when that is defined and for itself otherwise.
\<close>

datatype segment = Plain char | Reference string

fun segment_source :: "segment \<Rightarrow> string" where
  "segment_source (Plain c) = [c]"
| "segment_source (Reference ds) = ''$'' @ ds"

fun next_not_digit :: "segment list \<Rightarrow> bool" where
  "next_not_digit (Plain d # _) = (\<not> is_digit d)"
| "next_not_digit _ = True"

fun segmented :: "segment list \<Rightarrow> bool" where
  "segmented [] = True"
| "segmented (Reference ds # rest) =
     (ds \<noteq> [] \<and> list_all is_digit ds \<and> next_not_digit rest \<and> segmented rest)"
| "segmented (Plain c # rest) = ((c \<noteq> CHR ''$'' \<or> next_not_digit rest) \<and> segmented rest)"

fun segment_result :: "jsval list \<Rightarrow> segment \<Rightarrow> string" where
  "segment_result params (Plain c) = [c]"
| "segment_result params (Reference ds) =
     (if paramAt params (parseInt ds) \<noteq> Undefined
      then toString (paramAt params (parseInt ds))
      else ''$'' @ ds)"

fun segment_with :: "(string \<Rightarrow> string) \<Rightarrow> segment \<Rightarrow> string" where
  "segment_with f (Plain c) = [c]"
| "segment_with f (Reference ds) = f ds"

section \<open>OO.ui.IndicatedElement\<close>

text \<open>
  The mixin's state: the field \<^verbatim>\<open>this.indicator\<close> (\<open>None\<close> is \<^verbatim>\<open>null\<close>), the class list
  of the indicator node \<^verbatim>\<open>this.$indicator\<close> and the class list of \<^verbatim>\<open>this.$element\<close>.
\<close>

record indicatedElement =
  indicator :: "string option"
  indicator_classes :: "string set"
  element_classes :: "string set"

text \<open>\<^verbatim>\<open>if ( this.indicator )\<close>: \<^verbatim>\<open>null\<close> and the empty string are falsy.\<close>

definition indicator_truthy :: "indicatedElement \<Rightarrow> bool" where
  "indicator_truthy w = (case indicator w of None \<Rightarrow> False | Some s \<Rightarrow> s \<noteq> [])"

text \<open>The three statements of \<^verbatim>\<open>setIndicator\<close>: forget the indicator there is, take the new
  one if the value is a string that is not empty once trimmed, toggle the element's class.\<close>

definition clearIndicator :: "indicatedElement \<Rightarrow> indicatedElement" where
  "clearIndicator w =
     (if indicator_truthy w
      then w\<lparr>indicator_classes :=
                removeClass (''oo-ui-indicator-'' @ the (indicator w)) (indicator_classes w),
              indicator := None\<rparr>
      else w)"

definition applyIndicator :: "jsval \<Rightarrow> indicatedElement \<Rightarrow> indicatedElement" where
  "applyIndicator v w =
     (case v of
        Str s \<Rightarrow>
          (let v' = trim s in
           if length v' \<noteq> 0
           then w\<lparr>indicator_classes := addClass (''oo-ui-indicator-'' @ v') (indicator_classes w),
                   indicator := Some v'\<rparr>
           else w)
      | _ \<Rightarrow> w)"

definition setIndicator :: "jsval \<Rightarrow> indicatedElement \<Rightarrow> indicatedElement" where
  "setIndicator v w =
     (let w1 = clearIndicator w;
          w2 = applyIndicator v w1
      in w2\<lparr>element_classes :=
               toggleClass ''oo-ui-indicatedElement'' (indicator_truthy w2) (element_classes w2)\<rparr>)"

text \<open>The invariant of the field: \<^verbatim>\<open>null\<close>, or a non-empty string that neither starts nor
  ends with white space.\<close>

definition indicator_ok :: "indicatedElement \<Rightarrow> bool" where
  "indicator_ok w =
     (case indicator w of
        None \<Rightarrow> True
      | Some s \<Rightarrow> s \<noteq> [] \<and> \<not> is_ws (hd s) \<and> \<not> is_ws (last s))"

text \<open>What the setter is expected to leave in the field.\<close>

definition indicator_of :: "jsval \<Rightarrow> string option" where
  "indicator_of v =
     (case v of Str s \<Rightarrow> (if trim s \<noteq> [] then Some (trim s) else None) | _ \<Rightarrow> None)"

section \<open>DropdownInputWidget, in JavaScript and in PHP\<close>

text \<open>An entry of the \<^verbatim>\<open>options\<close> argument, \<^verbatim>\<open>{ data: ..., label: ... }\<close>; a label that is
  not given is \<open>Undefined\<close>.\<close>

record menuOption =
  data :: jsval
  label :: jsval

subsection \<open>The JavaScript widget\<close>







subsection \<open>The PHP widget\<close>

text \<open>An \<^verbatim>\<open><option>\<close> tag: its \<^verbatim>\<open>value\<close> attribute, its content and whether it carries the
  attribute \<^verbatim>\<open>selected\<close>. The tags of \<^verbatim>\<open>$this->options\<close> are the ones appended to the input.\<close>

record optionTag =
  tag_value :: jsval
  tag_content :: jsval
  tag_selected :: bool



text \<open>\<^verbatim>\<open>isset( $opt['label'] )\<close> is false for a key that is not set and for \<^verbatim>\<open>null\<close>.\<close>

definition newOptionTag :: "menuOption \<Rightarrow> optionTag" where
  "newOptionTag opt =
     \<lparr>tag_value = data opt,
      tag_content = (if label opt \<noteq> Undefined \<and> label opt \<noteq> Null then label opt else data opt),
      tag_selected = False\<rparr>"

text \<open>The \<^verbatim>\<open>foreach\<close> of \<^verbatim>\<open>setOptions\<close>, with \<^verbatim>\<open>$isValueAvailable\<close> and the tags built so
  far as its state.\<close>

fun rebuildOptions :: "jsval \<Rightarrow> menuOption list \<Rightarrow> bool \<times> optionTag list \<Rightarrow> bool \<times> optionTag list" where
  "rebuildOptions v [] acc = acc"
| "rebuildOptions v (opt # opts) (isValueAvailable, tags) =
     rebuildOptions v opts
       (if v = data opt then True else isValueAvailable, tags @ [newOptionTag opt])"


subsection \<open>The value both are expected to compute\<close>







section \<open>OO.ui.Frame.static.transplantStyles\<close>

text \<open>
  A style sheet of the parent document is known by the name and the address of its owner
  node. The frame's document is the list of nodes appended to its head and the list of nodes
  in its body; a poll node is known by its \<^verbatim>\<open>id\<close>.
\<close>

record styleSheet =
  nodeName :: string
  href :: string

datatype headNode = ImportStyle string string | ImportedNode styleSheet

record frameDocument =
  head_children :: "headNode list"
  body_children :: "string list"


definition isExternal :: "styleSheet \<Rightarrow> bool" where
  "isExternal sheet = (toLowerCase (nodeName sheet) = ''link'')"

text \<open>
  The \<^verbatim>\<open>for\<close> loop over \<^verbatim>\<open>parentDoc.styleSheets\<close>, from index \<open>i\<close> on, with \<^verbatim>\<open>$pollNodes\<close>
  and the frame's document as its state. \<open>ImportStyle href id\<close> is the \<^verbatim>\<open>style\<close> element
  that imports the sheet and then gives the node \<open>id\<close> the fake font family.
\<close>

fun transplantLoop ::
  "bool \<Rightarrow> nat \<Rightarrow> styleSheet list \<Rightarrow> string list \<times> frameDocument
     \<Rightarrow> string list \<times> frameDocument" where
  "transplantLoop callback i [] st = st"
| "transplantLoop callback i (sheet # sheets) (pollNodes, doc) =
     (if callback \<and> isExternal sheet
      then
        (let pollNodeId = ''oo-ui-frame-transplantStyles-loaded-'' @ show_nat i;
             doc1 = doc\<lparr>body_children := body_children doc @ [pollNodeId]\<rparr>;
             newNode = ImportStyle (href sheet) pollNodeId
         in transplantLoop callback (Suc i) sheets
              (pollNodes @ [pollNodeId], doc1\<lparr>head_children := head_children doc1 @ [newNode]\<rparr>))
      else
        transplantLoop callback (Suc i) sheets
          (pollNodes, doc\<lparr>head_children := head_children doc @ [ImportedNode sheet]\<rparr>))"

text \<open>
  What the function leaves behind: the poll nodes still waited for, all the poll nodes, the
  frame's document, whether a timeout is set, and the documents the callback has been
  invoked on, one for each invocation.
\<close>

record poller =
  pendingPollNodes :: "string list"
  pollNodes :: "string list"
  frame_doc :: frameDocument
  timeout_set :: bool
  callback_calls :: "frameDocument list"

text \<open>\<^verbatim>\<open>transplantStyles( parentDoc, frameDoc, callback )\<close> up to its return; the first
  argument says whether a callback was given.\<close>

definition transplantStyles :: "bool \<Rightarrow> styleSheet list \<Rightarrow> frameDocument \<Rightarrow> poller" where
  "transplantStyles callback sheets doc =
     (let (nodes, doc1) = transplantLoop callback 0 sheets ([], doc)
      in \<lparr>pendingPollNodes = (if callback then nodes else []),
          pollNodes = nodes,
          frame_doc = doc1,
          timeout_set = callback,
          callback_calls = []\<rparr>)"










section \<open>OO.ui.Window\<close>

text \<open>
  A call either throws, leaving the window in the state it had at the \<^verbatim>\<open>throw\<close>, or returns
  a value, leaving the window in a new state. A chainable method returns \<^verbatim>\<open>this\<close>.
\<close>

datatype error = Error string

datatype self = This

datatype ('a, 'w) outcome = Threw error 'w | Returned 'a 'w

text \<open>
  The fields of a window: its manager (\<open>None\<close> is \<^verbatim>\<open>null\<close>; a manager is an object, hence
  truthy), its symbolic size, its visibility, the class lists of \<^verbatim>\<open>$element\<close>, \<^verbatim>\<open>$frame\<close>,
  \<^verbatim>\<open>$overlay\<close> and \<^verbatim>\<open>$content\<close>, the nodes appended to \<^verbatim>\<open>$content\<close>, the class lists of the
  nodes \<^verbatim>\<open>initialize\<close> creates (\<open>None\<close> before it has run), the directionality, the number of
  \<^verbatim>\<open>mousedown\<close> handlers bound, and where the focus is. \<open>content_dir\<close> is what
  \<^verbatim>\<open>OO.ui.Element.static.getDir\<close> answers for \<^verbatim>\<open>$content\<close>, empty when it has no answer.
\<close>

record 'm window =
  manager :: "'m option"
  size_name :: string
  visible :: bool
  element_cls :: "string set"
  frame_cls :: "string set"
  overlay_cls :: "string set"
  content_cls :: "string set"
  content_nodes :: "string list"
  head_cls :: "string set option"
  body_cls :: "string set option"
  foot_cls :: "string set option"
  innerOverlay_cls :: "string set option"
  dir :: "string option"
  content_dir :: string
  mousedown_handlers :: nat
  content_focused :: bool
  active_inside :: bool

text \<open>The constructor, from \<^verbatim>\<open>config.size\<close> and the directionality of the page.\<close>

definition OoUiWindow :: "string option \<Rightarrow> string \<Rightarrow> 'm window" where
  "OoUiWindow config_size cdir =
     \<lparr>manager = None,
      size_name = (case config_size of Some s \<Rightarrow> (if s \<noteq> [] then s else ''medium'') | None \<Rightarrow> ''medium''),
      visible = False,
      element_cls = addClass ''oo-ui-element-hidden'' (addClass ''oo-ui-window'' {}),
      frame_cls = addClass ''oo-ui-window-frame'' {},
      overlay_cls = addClass ''oo-ui-window-overlay'' {},
      content_cls = addClass ''oo-ui-window-content'' {},
      content_nodes = [],
      head_cls = None, body_cls = None, foot_cls = None, innerOverlay_cls = None,
      dir = None,
      content_dir = cdir,
      mousedown_handlers = 0,
      content_focused = False,
      active_inside = False\<rparr>"

definition isInitialized :: "'m window \<Rightarrow> bool" where
  "isInitialized w = (manager w \<noteq> None)"

definition initialize :: "'m window \<Rightarrow> (self, 'm window) outcome" where
  "initialize w =
     (case manager w of
        None \<Rightarrow> Threw (Error ''Cannot initialize window, must be attached to a manager'') w
      | Some _ \<Rightarrow>
          Returned This
            (w\<lparr>head_cls := Some (addClass ''oo-ui-window-head'' {}),
               body_cls := Some (addClass ''oo-ui-window-body'' {}),
               foot_cls := Some (addClass ''oo-ui-window-foot'' {}),
               innerOverlay_cls := Some (addClass ''oo-ui-window-inner-overlay'' {}),
               dir := Some (if content_dir w \<noteq> [] then content_dir w else ''ltr''),
               mousedown_handlers := Suc (mousedown_handlers w),
               content_nodes :=
                 content_nodes w @ [''$head'', ''$body'', ''$foot'', ''$innerOverlay'']\<rparr>))"

text \<open>\<^verbatim>\<open>setManager( manager )\<close>; the argument is a window manager, as documented.\<close>

definition setManager :: "'m \<Rightarrow> 'm window \<Rightarrow> (self, 'm window) outcome" where
  "setManager m w =
     (if manager w \<noteq> None
      then Threw (Error ''Cannot set window manager, window already has a manager'') w
      else case initialize (w\<lparr>manager := Some m\<rparr>) of
             Threw e w' \<Rightarrow> Threw e w'
           | Returned _ w' \<Rightarrow> Returned This w')"

text \<open>
  The methods of the window manager that a window calls are not among the sources. Each is
  a parameter of the method that calls it: \<open>manager_updateWindowSize\<close> gives the window
  after the manager has resized it, \<open>manager_openWindow\<close> and \<open>manager_closeWindow\<close> give
  what the manager returns.
\<close>

definition updateSize ::
  "('m \<Rightarrow> 'm window \<Rightarrow> 'm window) \<Rightarrow> 'm window \<Rightarrow> (self, 'm window) outcome" where
  "updateSize manager_updateWindowSize w =
     (case manager w of
        None \<Rightarrow> Threw (Error ''Cannot update window size, must be attached to a manager'') w
      | Some m \<Rightarrow> Returned This (manager_updateWindowSize m w))"

definition setSize ::
  "('m \<Rightarrow> 'm window \<Rightarrow> 'm window) \<Rightarrow> string \<Rightarrow> 'm window \<Rightarrow> (self, 'm window) outcome" where
  "setSize manager_updateWindowSize s w = updateSize manager_updateWindowSize (w\<lparr>size_name := s\<rparr>)"

text \<open>\<^verbatim>\<open>open( data )\<close> and \<^verbatim>\<open>close( data )\<close>.\<close>

definition open_window ::
  "('m \<Rightarrow> 'm window \<Rightarrow> 'd \<Rightarrow> 'p) \<Rightarrow> 'd \<Rightarrow> 'm window \<Rightarrow> ('p, 'm window) outcome" where
  "open_window manager_openWindow dat w =
     (case manager w of
        None \<Rightarrow> Threw (Error ''Cannot open window, must be attached to a manager'') w
      | Some m \<Rightarrow> Returned (manager_openWindow m w dat) w)"

definition close_window ::
  "('m \<Rightarrow> 'm window \<Rightarrow> 'd \<Rightarrow> 'p) \<Rightarrow> 'd \<Rightarrow> 'm window \<Rightarrow> ('p, 'm window) outcome" where
  "close_window manager_closeWindow dat w =
     (case manager w of
        None \<Rightarrow> Threw (Error ''Cannot close window, must be attached to a manager'') w
      | Some m \<Rightarrow> Returned (manager_closeWindow m w dat) w)"

text \<open>The window \<^verbatim>\<open>initialize\<close> leaves behind when it does not throw.\<close>

definition initialized_window :: "'m window \<Rightarrow> 'm window" where
  "initialized_window w =
     w\<lparr>head_cls := Some {''oo-ui-window-head''},
       body_cls := Some {''oo-ui-window-body''},
       foot_cls := Some {''oo-ui-window-foot''},
       innerOverlay_cls := Some {''oo-ui-window-inner-overlay''},
       dir := Some (if content_dir w = [] then ''ltr'' else content_dir w),
       mousedown_handlers := mousedown_handlers w + 1,
       content_nodes := content_nodes w @ [''$head'', ''$body'', ''$foot'', ''$innerOverlay'']\<rparr>"

section \<open>OOUI Theme: the singleton\<close>

text \<open>The static member \<^verbatim>\<open>$singleton\<close> is \<open>None\<close> until a theme is set; a theme is an
  object. \<^verbatim>\<open>__METHOD__\<close> is the qualified name of the method.\<close>

datatype exception = Exception string

definition setSingleton :: "'t \<Rightarrow> 't option \<Rightarrow> 't option" where
  "setSingleton theme registry = Some theme"

definition singleton :: "'t option \<Rightarrow> exception + 't" where
  "singleton registry =
     (case registry of
        None \<Rightarrow>
          Inl (Exception (''OOUI'' @ [CHR 0x5C]
                 @ ''Theme::singleton was called with no singleton theme set.''))
      | Some theme \<Rightarrow> Inr theme)"

section \<open>The window lifecycle\<close>

subsection \<open>Processes\<close>

datatype stage = Setup | Ready | Hold | Teardown

text \<open>
  Modelled from the spec: \<^verbatim>\<open>OO.ui.Process\<close> is not among the sources. A process is an
  ordered list of steps, each synchronous or deferred, executed in sequence; a deferred step
  is a deferred completion, and the steps are chained in series. A step is known by a label.
\<close>

datatype step = Synchronous string | Deferred string

datatype promise_state = Pending | Resolved | Rejected

text \<open>What a window does is recorded: a stage begins, a step of its process starts or
  completes, the stage's callback has run and its promise is resolved.\<close>

datatype event =
  StageBegan stage | StepStarted stage nat | StepCompleted stage nat | StageEnded stage

text \<open>
  Modelled from the spec: executing the steps of a process from step \<open>i\<close> on (the part of
  \<^verbatim>\<open>OO.ui.Process\<close> that is missing). A synchronous step starts and completes at once and the
  next step follows; a deferred step starts and execution stops until it completes. The
  result is the deferred step now running, with the steps behind it, or \<open>None\<close> when the
  last step has completed, and the events on the way.
\<close>

fun start_steps :: "stage \<Rightarrow> nat \<Rightarrow> step list \<Rightarrow> (nat \<times> step list) option \<times> event list" where
  "start_steps st i [] = (None, [])"
| "start_steps st i (Synchronous _ # rest) =
     (case start_steps st (Suc i) rest of
        (r, evs) \<Rightarrow> (r, StepStarted st i # StepCompleted st i # evs))"
| "start_steps st i (Deferred _ # rest) = (Some (i, rest), [StepStarted st i])"

subsection \<open>A window under a manager\<close>

text \<open>
  Modelled from the spec: what the window manager (\<^verbatim>\<open>OO.ui.WindowManager\<close>, not among the
  sources) knows of a window. The window is closed, or opened, or one of the four stages of
  its lifecycle is under way: \<open>Running st i rest dat\<close> says that deferred step \<open>i\<close> of the
  process of stage \<open>st\<close> is running, that the steps \<open>rest\<close> follow it, and that the stage was
  begun with the data \<open>dat\<close>.
\<close>

datatype 'd status = Closed | Running stage nat "step list" 'd | Opened

text \<open>
  A window together with the processes its \<^verbatim>\<open>getSetupProcess\<close>, \<^verbatim>\<open>getReadyProcess\<close>,
  \<^verbatim>\<open>getHoldProcess\<close> and \<^verbatim>\<open>getTeardownProcess\<close> return (subclasses override them), the
  manager's knowledge of it, the state of the promise each of \<^verbatim>\<open>setup\<close>, \<^verbatim>\<open>ready\<close>, \<^verbatim>\<open>hold\<close>
  and \<^verbatim>\<open>teardown\<close> returned last, and the record of what it did.
\<close>

record ('m, 'd) managed_window =
  window :: "'m window"
  getProcess :: "stage \<Rightarrow> 'd \<Rightarrow> step list"
  status :: "'d status"
  promise :: "stage \<Rightarrow> promise_state"
  log :: "event list"

text \<open>
  Modelled from the spec: \<^verbatim>\<open>process.execute().done( callback )\<close>, the call every stage makes
  (\<^verbatim>\<open>execute\<close> belongs to the missing \<^verbatim>\<open>OO.ui.Process\<close>). The steps run from step \<open>i\<close> on;
  when the last has completed the callback runs, and until then the window waits for the
  deferred step that is running.
\<close>

definition execute ::
  "stage \<Rightarrow> nat \<Rightarrow> step list \<Rightarrow> 'd
     \<Rightarrow> (('m, 'd) managed_window \<Rightarrow> ('m, 'd) managed_window)
     \<Rightarrow> ('m, 'd) managed_window \<Rightarrow> ('m, 'd) managed_window" where
  "execute st i steps dat done_callback l =
     (case start_steps st i steps of
        (Some (j, rest), evs) \<Rightarrow> l\<lparr>log := log l @ evs, status := Running st j rest dat\<rparr>
      | (None, evs) \<Rightarrow> done_callback (l\<lparr>log := log l @ evs\<rparr>))"

text \<open>
  Modelled from the spec: \<^verbatim>\<open>toggle\<close> is a method of \<^verbatim>\<open>OO.ui.Element\<close>, which is not among
  the sources; it is the visibility toggle of a stage. It does for any visibility what the
  constructor of the window does by hand for the hidden state: it sets \<^verbatim>\<open>visible\<close> and the
  class \<^verbatim>\<open>oo-ui-element-hidden\<close>.
\<close>

definition toggle :: "bool \<Rightarrow> 'm window \<Rightarrow> 'm window" where
  "toggle shown w =
     w\<lparr>visible := shown,
       element_cls := toggleClass ''oo-ui-element-hidden'' (\<not> shown) (element_cls w)\<rparr>"

text \<open>
  The callbacks that \<^verbatim>\<open>setup\<close>, \<^verbatim>\<open>ready\<close>, \<^verbatim>\<open>hold\<close> and \<^verbatim>\<open>teardown\<close> pass to \<^verbatim>\<open>done\<close>. Each
  changes the classes of the window. Those of the first three resolve the deferred object the
  method created and whose promise it returned; the callback of \<^verbatim>\<open>teardown\<close> resolves
  nothing, since \<^verbatim>\<open>teardown\<close> returns the promise of the process itself.
\<close>

definition setup_done :: "('m, 'd) managed_window \<Rightarrow> ('m, 'd) managed_window" where
  "setup_done l =
     l\<lparr>window := (window l)
          \<lparr>element_cls := addClass ''oo-ui-window-active oo-ui-window-setup'' (element_cls (window l)),
           content_cls := addClass ''oo-ui-window-content-setup'' (content_cls (window l))\<rparr>,
       promise := (promise l)(Setup := Resolved),
       log := log l @ [StageEnded Setup]\<rparr>"

definition ready_done :: "('m, 'd) managed_window \<Rightarrow> ('m, 'd) managed_window" where
  "ready_done l =
     l\<lparr>window := (window l)
          \<lparr>element_cls := addClass ''oo-ui-window-ready'' (element_cls (window l)),
           content_cls := addClass ''oo-ui-window-content-ready'' (content_cls (window l))\<rparr>,
       promise := (promise l)(Ready := Resolved),
       log := log l @ [StageEnded Ready]\<rparr>"

definition hold_done :: "('m, 'd) managed_window \<Rightarrow> ('m, 'd) managed_window" where
  "hold_done l =
     l\<lparr>window := (window l)
          \<lparr>active_inside := False,
           element_cls := removeClass ''oo-ui-window-ready'' (element_cls (window l)),
           content_cls := removeClass ''oo-ui-window-content-ready'' (content_cls (window l))\<rparr>,
       promise := (promise l)(Hold := Resolved),
       log := log l @ [StageEnded Hold]\<rparr>"

definition teardown_done :: "('m, 'd) managed_window \<Rightarrow> ('m, 'd) managed_window" where
  "teardown_done l =
     l\<lparr>window := toggle False ((window l)
          \<lparr>element_cls :=
             removeClass ''oo-ui-window-active oo-ui-window-setup'' (element_cls (window l)),
           content_cls := removeClass ''oo-ui-window-content-setup'' (content_cls (window l))\<rparr>),
       log := log l @ [StageEnded Teardown]\<rparr>"

text \<open>
  Modelled from the spec: the promise \<^verbatim>\<open>teardown\<close> returns is the promise of \<^verbatim>\<open>execute\<close>,
  which belongs to the missing \<^verbatim>\<open>OO.ui.Process\<close>. A process is a chain of deferred
  completions, so its promise is resolved when the last step has completed; the callbacks
  attached with \<^verbatim>\<open>done\<close> run then.
\<close>

definition process_promise_resolved :: "('m, 'd) managed_window \<Rightarrow> ('m, 'd) managed_window" where
  "process_promise_resolved l = l\<lparr>promise := (promise l)(Teardown := Resolved)\<rparr>"

text \<open>
  \<^verbatim>\<open>OO.ui.Window.prototype.ready\<close>, \<^verbatim>\<open>setup\<close>, \<^verbatim>\<open>teardown\<close> and \<^verbatim>\<open>hold\<close>: what the method
  does before it executes the process, then the process with the callback. The methods
  return a promise; \<open>resolved\<close> is what the caller chained to it, which runs when the promise
  is resolved.
\<close>

definition window_ready ::
  "(('m, 'd) managed_window \<Rightarrow> ('m, 'd) managed_window) \<Rightarrow> 'd
     \<Rightarrow> ('m, 'd) managed_window \<Rightarrow> ('m, 'd) managed_window" where
  "window_ready resolved dat l =
     execute Ready 0 (getProcess l Ready dat) dat
       (\<lambda>l'. resolved (ready_done l'))
       (l\<lparr>window := (window l)\<lparr>content_focused := True, active_inside := False\<rparr>,
          promise := (promise l)(Ready := Pending),
          log := log l @ [StageBegan Ready]\<rparr>)"

definition window_setup ::
  "(('m, 'd) managed_window \<Rightarrow> ('m, 'd) managed_window) \<Rightarrow> 'd
     \<Rightarrow> ('m, 'd) managed_window \<Rightarrow> ('m, 'd) managed_window" where
  "window_setup resolved dat l =
     execute Setup 0 (getProcess l Setup dat) dat
       (\<lambda>l'. resolved (setup_done l'))
       (l\<lparr>window := toggle True (window l),
          promise := (promise l)(Setup := Pending),
          log := log l @ [StageBegan Setup]\<rparr>)"

definition window_teardown ::
  "(('m, 'd) managed_window \<Rightarrow> ('m, 'd) managed_window) \<Rightarrow> 'd
     \<Rightarrow> ('m, 'd) managed_window \<Rightarrow> ('m, 'd) managed_window" where
  "window_teardown resolved dat l =
     execute Teardown 0 (getProcess l Teardown dat) dat
       (\<lambda>l'. resolved (teardown_done (process_promise_resolved l')))
       (l\<lparr>promise := (promise l)(Teardown := Pending),
          log := log l @ [StageBegan Teardown]\<rparr>)"

definition window_hold ::
  "(('m, 'd) managed_window \<Rightarrow> ('m, 'd) managed_window) \<Rightarrow> 'd
     \<Rightarrow> ('m, 'd) managed_window \<Rightarrow> ('m, 'd) managed_window" where
  "window_hold resolved dat l =
     execute Hold 0 (getProcess l Hold dat) dat
       (\<lambda>l'. resolved (hold_done l'))
       (l\<lparr>promise := (promise l)(Hold := Pending),
          log := log l @ [StageBegan Hold]\<rparr>)"

text \<open>
  Modelled from the spec: what the window manager (\<^verbatim>\<open>OO.ui.WindowManager\<close>, not among the
  sources) chains to the promises. The lifecycle is setup, ready, hold, teardown: the manager
  readies the window once it is set up and marks it opened once it is ready, tears it down
  once it is held and marks it closed once it is torn down.
\<close>

definition mark :: "'d status \<Rightarrow> ('m, 'd) managed_window \<Rightarrow> ('m, 'd) managed_window" where
  "mark st l = l\<lparr>status := st\<rparr>"

text \<open>
  Modelled from the spec: what runs when the last step of the process of a stage has
  completed (the missing \<^verbatim>\<open>OO.ui.Process\<close> resolves the promise of \<^verbatim>\<open>execute\<close>): the callback
  of the stage, and then what the manager chained to the stage's promise.
\<close>

definition process_done ::
  "stage \<Rightarrow> 'd \<Rightarrow> ('m, 'd) managed_window \<Rightarrow> ('m, 'd) managed_window" where
  "process_done st dat l =
     (case st of
        Setup \<Rightarrow> window_ready (mark Opened) dat (setup_done l)
      | Ready \<Rightarrow> mark Opened (ready_done l)
      | Hold \<Rightarrow> window_teardown (mark Closed) dat (hold_done l)
      | Teardown \<Rightarrow> mark Closed (teardown_done (process_promise_resolved l)))"

text \<open>
  Modelled from the spec: the deferred step that is running completes (the missing
  \<^verbatim>\<open>OO.ui.Process\<close> chains the next step to it). The steps behind it are executed; a
  completion that no step is waiting for changes nothing.
\<close>

definition step_done :: "('m, 'd) managed_window \<Rightarrow> ('m, 'd) managed_window" where
  "step_done l =
     (case status l of
        Running st i rest dat \<Rightarrow>
          execute st (Suc i) rest dat (process_done st dat)
            (l\<lparr>log := log l @ [StepCompleted st i]\<rparr>)
      | _ \<Rightarrow> l)"



subsection \<open>The window manager\<close>

text \<open>
  Modelled from the spec: \<^verbatim>\<open>OO.ui.WindowManager\<close>, which is not among the sources. A
  manager has an identity, the windows it manages (by number), and each window's state.
\<close>

record ('m, 'd) windowManager =
  ident :: 'm
  managed :: "nat list"
  entries :: "nat \<Rightarrow> ('m, 'd) managed_window"

text \<open>
  Modelled from the spec: \<^verbatim>\<open>openWindow\<close> and \<^verbatim>\<open>closeWindow\<close> of the missing manager. One
  window is open at a time per manager: a window is opened only when it is managed and every
  managed window is closed; it is then set up, and readied once that is done. Cancellation
  is not supported: a window is closed only when it is opened, never while a stage is under
  way; it is then held, and torn down once that is done. A request that is not granted
  changes nothing.
\<close>

definition openWindow :: "nat \<Rightarrow> 'd \<Rightarrow> ('m, 'd) windowManager \<Rightarrow> ('m, 'd) windowManager" where
  "openWindow n dat s =
     (if n \<in> set (managed s) \<and> list_all (\<lambda>k. status (entries s k) = Closed) (managed s)
      then s\<lparr>entries :=
               (entries s)(n := window_setup (window_ready (mark Opened) dat) dat (entries s n))\<rparr>
      else s)"

definition closeWindow :: "nat \<Rightarrow> 'd \<Rightarrow> ('m, 'd) windowManager \<Rightarrow> ('m, 'd) windowManager" where
  "closeWindow n dat s =
     (if n \<in> set (managed s) \<and> status (entries s n) = Opened
      then s\<lparr>entries :=
               (entries s)(n := window_hold (window_teardown (mark Closed) dat) dat (entries s n))\<rparr>
      else s)"

text \<open>
  What can happen to a manager: its \<^verbatim>\<open>openWindow\<close> or \<^verbatim>\<open>closeWindow\<close> is called, the
  \<^verbatim>\<open>open\<close> or \<^verbatim>\<open>close\<close> method of a window is called (which throws or calls the manager the
  window is attached to), or the deferred step a window waits for completes.
\<close>

datatype 'd action =
  OpenWindow nat 'd | CloseWindow nat 'd | WindowOpen nat 'd | WindowClose nat 'd | StepDone nat

definition fire :: "'d action \<Rightarrow> ('m, 'd) windowManager \<Rightarrow> ('m, 'd) windowManager" where
  "fire a s =
     (case a of
        OpenWindow n dat \<Rightarrow> openWindow n dat s
      | CloseWindow n dat \<Rightarrow> closeWindow n dat s
      | WindowOpen n dat \<Rightarrow>
          (case open_window (\<lambda>m w d. if m = ident s then openWindow n d else id) dat
                  (window (entries s n)) of
             Threw _ _ \<Rightarrow> s
           | Returned effect _ \<Rightarrow> effect s)
      | WindowClose n dat \<Rightarrow>
          (case close_window (\<lambda>m w d. if m = ident s then closeWindow n d else id) dat
                  (window (entries s n)) of
             Threw _ _ \<Rightarrow> s
           | Returned effect _ \<Rightarrow> effect s)
      | StepDone n \<Rightarrow> s\<lparr>entries := (entries s)(n := step_done (entries s n))\<rparr>)"

fun run :: "'d action list \<Rightarrow> ('m, 'd) windowManager \<Rightarrow> ('m, 'd) windowManager" where
  "run [] s = s"
| "run (a # later) s = run later (fire a s)"

subsection \<open>The order of the lifecycle, as a monitor\<close>









text \<open>At most one managed window is not closed.\<close>

definition one_at_a_time :: "('m, 'd) windowManager \<Rightarrow> bool" where
  "one_at_a_time s =
     (\<forall>a \<in> set (managed s). \<forall>b \<in> set (managed s).
        status (entries s a) \<noteq> Closed \<and> status (entries s b) \<noteq> Closed \<longrightarrow> a = b)"




text \<open>
  A window whose setup process has a synchronous, a deferred and another synchronous step
  and whose hold process has one deferred step, and a manager of two such windows.
\<close>

definition example_window :: "(nat, string) managed_window" where
  "example_window =
     \<lparr>window = (OoUiWindow None [])\<lparr>manager := Some 0\<rparr>,
      getProcess = (\<lambda>st d. case st of
                      Setup \<Rightarrow> [Synchronous ''a'', Deferred ''b'', Synchronous ''c'']
                    | Hold \<Rightarrow> [Deferred ''h'']
                    | _ \<Rightarrow> []),
      status = Closed,
      promise = (\<lambda>_. Pending),
      log = []\<rparr>"

definition example_manager :: "(nat, string) windowManager" where
  "example_manager = \<lparr>ident = 0, managed = [1, 2], entries = (\<lambda>_. example_window)\<rparr>"


section \<open>Properties of the localisation functions\<close>

subsection \<open>getLocalValue\<close>

lemma knownUserLanguage_None:
  "knownUserLanguage obj langs = None \<longleftrightarrow> (\<forall>l \<in> set langs. \<not> truthy (entry obj l))"
  by (induction langs) auto

lemma knownUserLanguage_first:
  "i < length langs \<Longrightarrow> truthy (entry obj (langs ! i)) \<Longrightarrow>
   (\<forall>j < i. \<not> truthy (entry obj (langs ! j))) \<Longrightarrow>
   knownUserLanguage obj langs = Some (entry obj (langs ! i))"
proof (induction langs arbitrary: i)
  case Nil
  then show ?case by simp
next
  case (Cons l langs)
  show ?case
  proof (cases i)
    case 0
    with Cons.prems show ?thesis by simp
  next
    case (Suc k)
    have head: "\<not> truthy (entry obj l)" using Cons.prems(3) Suc by auto
    have "knownUserLanguage obj langs = Some (entry obj (langs ! k))"
    proof (rule Cons.IH)
      show "k < length langs" using Cons.prems(1) Suc by simp
      show "truthy (entry obj (langs ! k))" using Cons.prems(2) Suc by simp
      show "\<forall>j<k. \<not> truthy (entry obj (langs ! j))"
      proof (intro allI impI)
        fix j assume "j < k"
        then have "Suc j < i" using Suc by simp
        then have "\<not> truthy (entry obj ((l # langs) ! Suc j))" using Cons.prems(3) by blast
        then show "\<not> truthy (entry obj (langs ! j))" by simp
      qed
    qed
    with head Suc show ?thesis by simp
  qed
qed

lemma firstExisting_key:
  "obj \<noteq> [] \<Longrightarrow> \<exists>k \<in> fst ` set obj. firstExisting obj = entry obj k"
  by (cases obj) (auto simp: firstExisting_def)

text \<open>
  C8. \<^verbatim>\<open>OO.ui.getLocalValue( obj, lang, fallback )\<close> resolves in a fixed order of priority. It
  returns \<^verbatim>\<open>obj[lang]\<close> if that entry is truthy; otherwise the entry of the first of the
  user's languages, in their order of priority, whose entry is truthy; otherwise
  \<^verbatim>\<open>obj[fallback]\<close> if that is truthy; otherwise the value under some existing key of the
  object if it has one; otherwise \<^verbatim>\<open>undefined\<close>. The user's languages are those of
  \<^verbatim>\<open>OO.ui.getUserLanguages\<close>, English alone by default.
\<close>

theorem getLocalValue_priority:
  "(truthy (entry obj (key_of lang)) \<longrightarrow>
      getLocalValueFor langs obj lang fallback = entry obj (key_of lang))
   \<and> (\<not> truthy (entry obj (key_of lang)) \<and> i < length langs \<and> truthy (entry obj (langs ! i))
        \<and> (\<forall>j < i. \<not> truthy (entry obj (langs ! j))) \<longrightarrow>
      getLocalValueFor langs obj lang fallback = entry obj (langs ! i))
   \<and> (\<not> truthy (entry obj (key_of lang)) \<and> (\<forall>l \<in> set langs. \<not> truthy (entry obj l))
        \<and> truthy (entry obj (key_of fallback)) \<longrightarrow>
      getLocalValueFor langs obj lang fallback = entry obj (key_of fallback))
   \<and> (\<not> truthy (entry obj (key_of lang)) \<and> (\<forall>l \<in> set langs. \<not> truthy (entry obj l))
        \<and> \<not> truthy (entry obj (key_of fallback)) \<and> obj \<noteq> [] \<longrightarrow>
      (\<exists>k \<in> fst ` set obj. getLocalValueFor langs obj lang fallback = entry obj k))
   \<and> (\<not> truthy (entry obj (key_of lang)) \<and> (\<forall>l \<in> set langs. \<not> truthy (entry obj l))
        \<and> \<not> truthy (entry obj (key_of fallback)) \<and> obj = [] \<longrightarrow>
      getLocalValueFor langs obj lang fallback = Undefined)
   \<and> getLocalValue obj lang fallback = getLocalValueFor [''en''] obj lang fallback"
proof (intro conjI impI)
  assume "truthy (entry obj (key_of lang))"
  then show "getLocalValueFor langs obj lang fallback = entry obj (key_of lang)"
    by (simp add: getLocalValueFor_def)
next
  assume a: "\<not> truthy (entry obj (key_of lang)) \<and> i < length langs \<and> truthy (entry obj (langs ! i))
        \<and> (\<forall>j < i. \<not> truthy (entry obj (langs ! j)))"
  then have "knownUserLanguage obj langs = Some (entry obj (langs ! i))"
    by (simp add: knownUserLanguage_first)
  with a show "getLocalValueFor langs obj lang fallback = entry obj (langs ! i)"
    by (simp add: getLocalValueFor_def)
next
  assume a: "\<not> truthy (entry obj (key_of lang)) \<and> (\<forall>l \<in> set langs. \<not> truthy (entry obj l))
        \<and> truthy (entry obj (key_of fallback))"
  have "knownUserLanguage obj langs = None"
    using a [THEN conjunct2, THEN conjunct1] by (simp only: knownUserLanguage_None)
  with a show "getLocalValueFor langs obj lang fallback = entry obj (key_of fallback)"
    by (simp add: getLocalValueFor_def)
next
  assume a: "\<not> truthy (entry obj (key_of lang)) \<and> (\<forall>l \<in> set langs. \<not> truthy (entry obj l))
        \<and> \<not> truthy (entry obj (key_of fallback)) \<and> obj \<noteq> []"
  have n: "knownUserLanguage obj langs = None"
    using a [THEN conjunct2, THEN conjunct1] by (simp only: knownUserLanguage_None)
  from a have "obj \<noteq> []" by simp
  then have "\<exists>k \<in> fst ` set obj. firstExisting obj = entry obj k"
    by (rule firstExisting_key)
  with a n show "\<exists>k \<in> fst ` set obj. getLocalValueFor langs obj lang fallback = entry obj k"
    by (simp add: getLocalValueFor_def)
next
  assume a: "\<not> truthy (entry obj (key_of lang)) \<and> (\<forall>l \<in> set langs. \<not> truthy (entry obj l))
        \<and> \<not> truthy (entry obj (key_of fallback)) \<and> obj = []"
  have n: "knownUserLanguage obj langs = None"
    using a [THEN conjunct2, THEN conjunct1] by (simp only: knownUserLanguage_None)
  with a show "getLocalValueFor langs obj lang fallback = Undefined"
    by (auto simp: getLocalValueFor_def firstExisting_def entry_def)
next
  show "getLocalValue obj lang fallback = getLocalValueFor [''en''] obj lang fallback"
    by (simp add: getLocalValue_def getUserLanguages_def)
qed

theorem getLocalValue_priority_witness:
  "\<not> truthy (entry [(''de'', Str ''Hallo''), (''en'', Str ''Hello''), (''fr'', Str [])] ''nl'')
   \<and> \<not> truthy (entry [(''de'', Str ''Hallo''), (''en'', Str ''Hello''), (''fr'', Str [])] ''fr'')
   \<and> getLocalValueFor [''fr'', ''de'', ''en'']
         [(''de'', Str ''Hallo''), (''en'', Str ''Hello''), (''fr'', Str [])] (Key ''nl'') (Key ''en'')
       = Str ''Hallo''"
proof -
  let ?obj = "[(''de'', Str ''Hallo''), (''en'', Str ''Hello''), (''fr'', Str [])]"
  let ?langs = "[''fr'', ''de'', ''en'']"
  have h: "\<not> truthy (entry ?obj (key_of (Key ''nl''))) \<and> 1 < length ?langs
        \<and> truthy (entry ?obj (?langs ! 1))
        \<and> (\<forall>j < 1. \<not> truthy (entry ?obj (?langs ! j)))"
    by (simp add: entry_def)
  note t = getLocalValue_priority
    [where obj = ?obj and lang = "Key ''nl''" and fallback = "Key ''en''" and langs = ?langs
       and i = 1]
  from t h have "getLocalValueFor ?langs ?obj (Key ''nl'') (Key ''en'') = entry ?obj (?langs ! 1)"
    by blast
  then show ?thesis by (simp add: entry_def)
qed

subsection \<open>msg\<close>

lemma replace_refs_segments:
  "\<exists>segs. concat (map segment_source segs) = s \<and> segmented segs
      \<and> replace_refs f s = concat (map (segment_with f) segs)
      \<and> (\<forall>d r. segs = Plain d # r \<longrightarrow> s \<noteq> [] \<and> hd s = d)"
proof (induction f s rule: replace_refs.induct)
  case (1 f)
  have "concat (map segment_source []) = [] \<and> segmented []
      \<and> replace_refs f [] = concat (map (segment_with f) [])
      \<and> (\<forall>d r. ([]::segment list) = Plain d # r \<longrightarrow> ([]::string) \<noteq> [] \<and> hd [] = d)"
    by simp
  then show ?case by blast
next
  case (2 f c s)
  show ?case
  proof (cases "c = CHR ''$'' \<and> takeWhile is_digit s \<noteq> []")
    case True
    let ?ds = "takeWhile is_digit s"
    let ?rest = "dropWhile is_digit s"
    from "2.IH"(1) [OF True] obtain segs where
      src: "concat (map segment_source segs) = ?rest" and
      seg: "segmented segs" and
      res: "replace_refs f ?rest = concat (map (segment_with f) segs)" and
      hd: "\<forall>d r. segs = Plain d # r \<longrightarrow> ?rest \<noteq> [] \<and> hd ?rest = d"
      by blast
    have digits: "list_all is_digit ?ds"
      by (simp add: list_all_iff) (meson set_takeWhileD)
    have nd: "next_not_digit segs"
    proof (cases segs)
      case Nil
      then show ?thesis by simp
    next
      case (Cons x r)
      show ?thesis
      proof (cases x)
        case (Plain d)
        with Cons hd have "?rest \<noteq> []" and "hd ?rest = d" by auto
        then have "\<not> is_digit d" using hd_dropWhile by blast
        with Cons Plain show ?thesis by simp
      next
        case (Reference ds)
        with Cons show ?thesis by simp
      qed
    qed
    let ?segs = "Reference ?ds # segs"
    have a: "concat (map segment_source ?segs) = c # s" using True src by simp
    have b: "segmented ?segs" using True digits nd seg by simp
    have c: "replace_refs f (c # s) = concat (map (segment_with f) ?segs)"
      using True res by simp
    have d: "\<forall>d r. ?segs = Plain d # r \<longrightarrow> c # s \<noteq> [] \<and> hd (c # s) = d" by simp
    from a b c d show ?thesis by blast
  next
    case False
    from "2.IH"(2) [OF False] obtain segs where
      src: "concat (map segment_source segs) = s" and
      seg: "segmented segs" and
      res: "replace_refs f s = concat (map (segment_with f) segs)" and
      hd: "\<forall>d r. segs = Plain d # r \<longrightarrow> s \<noteq> [] \<and> hd s = d"
      by blast
    have nd: "c \<noteq> CHR ''$'' \<or> next_not_digit segs"
    proof (cases "c = CHR ''$''")
      case isdollar: True
      with False have tw: "takeWhile is_digit s = []" by simp
      have "next_not_digit segs"
      proof (cases segs)
        case Nil
        then show ?thesis by simp
      next
        case (Cons x r)
        show ?thesis
        proof (cases x)
          case (Plain d)
          with Cons hd have "s \<noteq> []" and "hd s = d" by auto
          with tw have "\<not> is_digit d" by (cases s) (auto split: if_splits)
          with Cons Plain show ?thesis by simp
        next
          case (Reference ds)
          with Cons show ?thesis by simp
        qed
      qed
      then show ?thesis by simp
    next
      case False
      then show ?thesis by simp
    qed
    let ?segs = "Plain c # segs"
    have a: "concat (map segment_source ?segs) = c # s" using src by simp
    have b: "segmented ?segs" using nd seg by simp
    have c: "replace_refs f (c # s) = concat (map (segment_with f) ?segs)"
      using False res by auto
    have d: "\<forall>d r. ?segs = Plain d # r \<longrightarrow> c # s \<noteq> [] \<and> hd (c # s) = d" by simp
    from a b c d show ?thesis by blast
  qed
qed

lemma segment_with_substituteParam:
  "segment_with (substituteParam params) = segment_result params"
proof
  fix seg
  show "segment_with (substituteParam params) seg = segment_result params seg"
    by (cases seg) (simp_all add: substituteParam_def Let_def)
qed

text \<open>
  C9. \<^verbatim>\<open>OO.ui.msg( key, params... )\<close> is total on its key. For a key with no message it
  returns the key in square brackets. For a known key it returns the message with every
  occurrence of \<open>$n\<close> replaced by the \<open>n\<close>-th parameter when that parameter is defined and
  left as it is when the parameter is undefined or missing: the message has a segmentation
  into plain characters and references such that the result is the segments' results, one
  after the other.
\<close>

theorem msg_substitution:
  "(map_of store key = None \<longrightarrow> msgFrom store key params = ''['' @ key @ '']'')
   \<and> (map_of store key = Some message \<longrightarrow>
        (\<exists>segs. concat (map segment_source segs) = message \<and> segmented segs
           \<and> msgFrom store key params = concat (map (segment_result params) segs)))
   \<and> msg key params = msgFrom messages key params"
proof (intro conjI impI)
  assume "map_of store key = None"
  then show "msgFrom store key params = ''['' @ key @ '']''" by (simp add: msgFrom_def)
next
  assume known: "map_of store key = Some message"
  obtain segs where
    src: "concat (map segment_source segs) = message" and
    seg: "segmented segs" and
    res: "replace_refs (substituteParam params) message
            = concat (map (segment_with (substituteParam params)) segs)"
    using replace_refs_segments [of message "substituteParam params"] by blast
  have "msgFrom store key params = concat (map (segment_result params) segs)"
    using known res by (simp add: msgFrom_def segment_with_substituteParam)
  with src seg
  show "\<exists>segs. concat (map segment_source segs) = message \<and> segmented segs
           \<and> msgFrom store key params = concat (map (segment_result params) segs)"
    by blast
next
  show "msg key params = msgFrom messages key params" by (simp add: msg_def)
qed

theorem msg_substitution_witness:
  "map_of [(''greet'', ''Hi $1, $2 and $10 for $0!'')] ''greet'' = Some ''Hi $1, $2 and $10 for $0!''
   \<and> (\<exists>segs. concat (map segment_source segs) = ''Hi $1, $2 and $10 for $0!'' \<and> segmented segs
         \<and> msgFrom [(''greet'', ''Hi $1, $2 and $10 for $0!'')] ''greet'' [Str ''Ann'', Undefined]
             = concat (map (segment_result [Str ''Ann'', Undefined]) segs))
   \<and> msgFrom [(''greet'', ''Hi $1, $2 and $10 for $0!'')] ''greet'' [Str ''Ann'', Undefined]
       = ''Hi Ann, $2 and $10 for $0!''
   \<and> msg ''ooui-toolbar-more'' [Str ''x''] = ''More''
   \<and> msg ''no-such-key'' [] = ''[no-such-key]''"
proof -
  let ?store = "[(''greet'', ''Hi $1, $2 and $10 for $0!'')]"
  have known: "map_of ?store ''greet'' = Some ''Hi $1, $2 and $10 for $0!''" by simp
  note t = msg_substitution
    [where store = ?store and key = "''greet''" and params = "[Str ''Ann'', Undefined]"
       and message = "''Hi $1, $2 and $10 for $0!''"]
  from t known
  have segs: "\<exists>segs. concat (map segment_source segs) = ''Hi $1, $2 and $10 for $0!''
        \<and> segmented segs
        \<and> msgFrom ?store ''greet'' [Str ''Ann'', Undefined]
            = concat (map (segment_result [Str ''Ann'', Undefined]) segs)"
    by blast
  have result: "msgFrom ?store ''greet'' [Str ''Ann'', Undefined] = ''Hi Ann, $2 and $10 for $0!''"
    by (simp add: msgFrom_def substituteParam_def paramAt_def parseInt_def digit_value_def
          is_digit_def)
  have more: "msg ''ooui-toolbar-more'' [Str ''x''] = ''More''"
    by (simp add: msg_def msgFrom_def messages_def)
  have none: "msg ''no-such-key'' [] = ''[no-such-key]''"
    by (simp add: msg_def msgFrom_def messages_def)
  from known segs result more none show ?thesis by blast
qed

section \<open>Properties of OO.ui.IndicatedElement\<close>

lemma trim_no_leading_ws: "trim s \<noteq> [] \<Longrightarrow> \<not> is_ws (hd (trim s))"
proof -
  assume ne: "trim s \<noteq> []"
  let ?d = "dropWhile is_ws s"
  have dne: "?d \<noteq> []"
  proof
    assume a: "?d = []"
    have "trim s = []" unfolding trim_def a by simp
    with ne show False by simp
  qed
  then have hd_d: "\<not> is_ws (hd ?d)" by (rule hd_dropWhile)
  obtain x xs where d: "?d = x # xs" using dne by (cases ?d) auto
  have x: "\<not> is_ws x" using hd_d d by simp
  have "rev ?d = rev xs @ [x]" using d by simp
  then have "dropWhile is_ws (rev ?d) = dropWhile is_ws (rev xs) @ [x]"
    using x by (simp add: dropWhile_append)
  then have "trim s = x # rev (dropWhile is_ws (rev xs))"
    by (simp add: trim_def)
  then show ?thesis using x by simp
qed

lemma trim_no_trailing_ws: "trim s \<noteq> [] \<Longrightarrow> \<not> is_ws (last (trim s))"
proof -
  assume ne: "trim s \<noteq> []"
  let ?r = "dropWhile is_ws (rev (dropWhile is_ws s))"
  have rne: "?r \<noteq> []" using ne by (simp add: trim_def)
  then have "\<not> is_ws (hd ?r)" by (rule hd_dropWhile)
  moreover have "last (trim s) = hd ?r" using rne by (simp add: trim_def last_rev)
  ultimately show ?thesis by simp
qed

text \<open>
  C10. If the indicator field is \<^verbatim>\<open>null\<close> or a non-empty string without leading or trailing
  white space before the call, then after \<^verbatim>\<open>setIndicator(value)\<close> the field is the trimmed
  value when the value is a string whose trimmed form is non-empty and \<^verbatim>\<open>null\<close> otherwise,
  the field satisfies the same invariant again, and the element carries the class
  \<^verbatim>\<open>oo-ui-indicatedElement\<close> exactly when the field is not \<^verbatim>\<open>null\<close>.
\<close>

theorem setIndicator_invariant:
  assumes "indicator_ok w"
  shows "indicator (setIndicator v w) = indicator_of v
         \<and> indicator_ok (setIndicator v w)
         \<and> (''oo-ui-indicatedElement'' \<in> element_classes (setIndicator v w)
              \<longleftrightarrow> indicator (setIndicator v w) \<noteq> None)"
proof -
  have cleared: "indicator (clearIndicator w) = None"
    using assms
    by (auto simp: clearIndicator_def indicator_truthy_def indicator_ok_def split: option.splits)
  have field: "indicator (setIndicator v w) = indicator_of v"
    using cleared
    by (cases v) (simp_all add: setIndicator_def applyIndicator_def indicator_of_def Let_def)
  have ok: "indicator_ok (setIndicator v w)"
    unfolding indicator_ok_def field
    by (cases v)
       (simp_all add: indicator_of_def trim_no_leading_ws trim_no_trailing_ws)
  have name: "class_names ''oo-ui-indicatedElement'' = [''oo-ui-indicatedElement'']"
    by (simp add: class_names_def is_ws_def)
  have truthy_eq: "indicator_truthy (applyIndicator v (clearIndicator w)) \<longleftrightarrow> indicator_of v \<noteq> None"
    using cleared
    by (cases v)
       (simp_all add: applyIndicator_def indicator_truthy_def indicator_of_def Let_def)
  have cls: "''oo-ui-indicatedElement'' \<in> element_classes (setIndicator v w)
              \<longleftrightarrow> indicator_of v \<noteq> None"
    using truthy_eq name
    by (simp add: setIndicator_def Let_def toggleClass_def addClass_def removeClass_def)
  show ?thesis using field ok cls by simp
qed

theorem setIndicator_invariant_witness:
  "indicator_ok \<lparr>indicator = Some ''down'', indicator_classes = {''oo-ui-indicator-down''},
                 element_classes = {''oo-ui-indicatedElement''}\<rparr>
   \<and> indicator (setIndicator (Str '' up '')
        \<lparr>indicator = Some ''down'', indicator_classes = {''oo-ui-indicator-down''},
         element_classes = {''oo-ui-indicatedElement''}\<rparr>) = Some ''up''
   \<and> indicator (setIndicator (Num 3)
        \<lparr>indicator = Some ''down'', indicator_classes = {''oo-ui-indicator-down''},
         element_classes = {''oo-ui-indicatedElement''}\<rparr>) = None"
proof -
  let ?w = "\<lparr>indicator = Some ''down'', indicator_classes = {''oo-ui-indicator-down''},
             element_classes = {''oo-ui-indicatedElement''}\<rparr>"
  have h: "indicator_ok ?w" by (simp add: indicator_ok_def is_ws_def)
  have a: "indicator_of (Str '' up '') = Some ''up''"
    by (simp add: indicator_of_def trim_def is_ws_def)
  have b: "indicator_of (Num 3) = None" by (simp add: indicator_of_def)
  show ?thesis
    using h setIndicator_invariant [OF h, of "Str '' up ''"] setIndicator_invariant [OF h, of "Num 3"] a b
    by simp
qed


section \<open>Properties of OO.ui.Window and of the theme singleton\<close>

lemma initialize_attached:
  "manager w = Some m \<Longrightarrow> initialize w = Returned This (initialized_window w)"
  by (simp add: initialize_def initialized_window_def addClass_def class_names_def is_ws_def)

text \<open>
  C2. Attaching a manager a second time fails fast. On a window that has a manager,
  \<^verbatim>\<open>setManager( manager )\<close> throws an error and leaves the window, its manager included, as it
  was. On a window with no manager it sets the manager, initializes the window and returns
  the window.
\<close>

theorem setManager_once:
  "(manager w = Some attached \<longrightarrow>
      setManager m w = Threw (Error ''Cannot set window manager, window already has a manager'') w)
   \<and> (manager w = None \<longrightarrow>
      setManager m w = Returned This (initialized_window (w\<lparr>manager := Some m\<rparr>))
      \<and> manager (initialized_window (w\<lparr>manager := Some m\<rparr>)) = Some m)"
proof (intro conjI impI)
  assume "manager w = Some attached"
  then show "setManager m w
      = Threw (Error ''Cannot set window manager, window already has a manager'') w"
    by (simp add: setManager_def)
next
  assume none: "manager w = None"
  have "initialize (w\<lparr>manager := Some m\<rparr>) = Returned This (initialized_window (w\<lparr>manager := Some m\<rparr>))"
    by (rule initialize_attached) simp
  with none show "setManager m w = Returned This (initialized_window (w\<lparr>manager := Some m\<rparr>))"
    by (simp add: setManager_def)
next
  show "manager (initialized_window (w\<lparr>manager := Some m\<rparr>)) = Some m"
    by (simp add: initialized_window_def)
qed

theorem setManager_once_witness:
  "manager (OoUiWindow None [] :: nat window) = None
   \<and> setManager (1::nat) (OoUiWindow None [])
     = Returned This (initialized_window ((OoUiWindow None [])\<lparr>manager := Some 1\<rparr>))
   \<and> setManager (2::nat) (initialized_window ((OoUiWindow None [])\<lparr>manager := Some 1\<rparr>))
     = Threw (Error ''Cannot set window manager, window already has a manager'')
         (initialized_window ((OoUiWindow None [])\<lparr>manager := Some 1\<rparr>))
   \<and> dir (initialized_window ((OoUiWindow None [])\<lparr>manager := Some (1::nat)\<rparr>)) = Some ''ltr''"
proof -
  let ?w0 = "OoUiWindow None [] :: nat window"
  let ?w1 = "initialized_window (?w0\<lparr>manager := Some 1\<rparr>)"
  have a: "manager ?w0 = None" by (simp add: OoUiWindow_def)
  have b: "manager ?w1 = Some 1" by (simp add: initialized_window_def)
  have c: "dir ?w1 = Some ''ltr''" by (simp add: initialized_window_def OoUiWindow_def)
  note t0 = setManager_once [where w = ?w0 and attached = 0 and m = 1]
  note t1 = setManager_once [where w = ?w1 and attached = 1 and m = 2]
  from t0 a have d: "setManager 1 ?w0 = Returned This ?w1" by blast
  from t1 b have e: "setManager 2 ?w1
      = Threw (Error ''Cannot set window manager, window already has a manager'') ?w1"
    by blast
  from a d e c show ?thesis by blast
qed

text \<open>
  C3. Operating before initialization fails fast. On a window with no manager each of
  \<^verbatim>\<open>open\<close>, \<^verbatim>\<open>close\<close>, \<^verbatim>\<open>updateSize\<close> and \<^verbatim>\<open>initialize\<close> throws an error, the manager is not
  called and the window is as it was; \<^verbatim>\<open>Theme::singleton\<close> throws an exception when no
  singleton theme has been set. When a manager is attached none of the four throws: \<^verbatim>\<open>open\<close>
  and \<^verbatim>\<open>close\<close> return what the manager returns, \<^verbatim>\<open>updateSize\<close> and \<^verbatim>\<open>initialize\<close> return
  the window; when a theme has been set, \<^verbatim>\<open>Theme::singleton\<close> returns it.
\<close>

theorem uninitialized_fails_fast:
  "(manager w = None \<longrightarrow>
      open_window manager_openWindow dat w
        = Threw (Error ''Cannot open window, must be attached to a manager'') w
      \<and> close_window manager_closeWindow dat w
        = Threw (Error ''Cannot close window, must be attached to a manager'') w
      \<and> updateSize manager_updateWindowSize w
        = Threw (Error ''Cannot update window size, must be attached to a manager'') w
      \<and> initialize w
        = Threw (Error ''Cannot initialize window, must be attached to a manager'') w)
   \<and> (manager w = Some m \<longrightarrow>
      open_window manager_openWindow dat w = Returned (manager_openWindow m w dat) w
      \<and> close_window manager_closeWindow dat w = Returned (manager_closeWindow m w dat) w
      \<and> updateSize manager_updateWindowSize w = Returned This (manager_updateWindowSize m w)
      \<and> initialize w = Returned This (initialized_window w))
   \<and> (\<exists>message. singleton (None :: 't option) = Inl (Exception message))
   \<and> singleton (Some theme) = Inr theme
   \<and> singleton (setSingleton theme registry) = Inr theme"
proof (intro conjI impI)
  assume "manager w = Some m"
  then show "initialize w = Returned This (initialized_window w)"
    by (rule initialize_attached)
qed (simp_all add: open_window_def close_window_def updateSize_def initialize_def
       singleton_def setSingleton_def)

theorem uninitialized_fails_fast_witness:
  "manager (OoUiWindow None [] :: nat window) = None
   \<and> open_window (\<lambda>m w d. (m, d)) ''data'' (OoUiWindow None [] :: nat window)
     = Threw (Error ''Cannot open window, must be attached to a manager'') (OoUiWindow None [])
   \<and> open_window (\<lambda>m w d. (m, d)) ''data'' ((OoUiWindow None [])\<lparr>manager := Some (7::nat)\<rparr>)
     = Returned (7, ''data'') ((OoUiWindow None [])\<lparr>manager := Some 7\<rparr>)"
proof -
  let ?w0 = "OoUiWindow None [] :: nat window"
  let ?w1 = "?w0\<lparr>manager := Some 7\<rparr>"
  have a: "manager ?w0 = None" by (simp add: OoUiWindow_def)
  have b: "manager ?w1 = Some 7" by simp
  note t0 = uninitialized_fails_fast
            [where w = ?w0 and manager_openWindow = "\<lambda>m w d. (m, d)" and dat = "''data''"
               and manager_closeWindow = "\<lambda>m w d. (m, d)" and manager_updateWindowSize = "\<lambda>m w. w"
               and m = 7 and theme = "0::nat" and registry = None]
  note t1 = uninitialized_fails_fast
            [where w = ?w1 and manager_openWindow = "\<lambda>m w d. (m, d)" and dat = "''data''"
               and manager_closeWindow = "\<lambda>m w d. (m, d)" and manager_updateWindowSize = "\<lambda>m w. w"
               and m = 7 and theme = "0::nat" and registry = None]
  have c: "open_window (\<lambda>m w d. (m, d)) ''data'' ?w0
     = Threw (Error ''Cannot open window, must be attached to a manager'') ?w0"
    using t0 a by blast
  have d: "open_window (\<lambda>m w d. (m, d)) ''data'' ?w1 = Returned (7, ''data'') ?w1"
    using t1 b by blast
  show ?thesis using a c d by blast
qed

section \<open>Properties of DropdownInputWidget\<close>



lemma rebuildOptions_tags:
  "snd (rebuildOptions v options (avail, tags)) = tags @ map newOptionTag options"
  by (induction options arbitrary: avail tags) auto










section \<open>Properties of transplantStyles\<close>


lemma transplantLoop_no_callback:
  "fst (transplantLoop False i sheets (nodes, doc)) = nodes"
  by (induction sheets arbitrary: i nodes doc) simp_all














section \<open>Properties of the window lifecycle\<close>

subsection \<open>The record of a window is in order\<close>















lemma fire_effect:
  "fire a s = s
   \<or> (\<exists>n dat. fire a s = openWindow n dat s)
   \<or> (\<exists>n dat. fire a s = closeWindow n dat s)
   \<or> (\<exists>n. a = StepDone n \<and> fire a s = s\<lparr>entries := (entries s)(n := step_done (entries s n))\<rparr>)"
proof (cases a)
  case (WindowOpen n dat)
  then show ?thesis
    by (cases "manager (window (entries s n))") (auto simp: fire_def open_window_def)
next
  case (WindowClose n dat)
  then show ?thesis
    by (cases "manager (window (entries s n))") (auto simp: fire_def close_window_def)
qed (auto simp: fire_def)














lemmas lifecycle_defs =
  example_manager_def example_window_def fire_def openWindow_def closeWindow_def
  open_window_def close_window_def window_setup_def window_ready_def window_hold_def
  window_teardown_def execute_def setup_done_def ready_done_def hold_done_def teardown_done_def
  process_promise_resolved_def
  process_done_def step_done_def mark_def OoUiWindow_def


subsection \<open>One window at a time\<close>

lemma managed_fire: "managed (fire a s) = managed s"
  using fire_effect [of a s] by (auto simp: openWindow_def closeWindow_def)

lemma step_done_closed: "status l = Closed \<Longrightarrow> step_done l = l"
  by (simp add: step_done_def)

lemma one_at_a_time_update:
  assumes "\<forall>j \<in> set (managed s). j \<noteq> k \<longrightarrow> status (entries s j) = Closed"
  shows "one_at_a_time (s\<lparr>entries := (entries s)(k := l)\<rparr>)"
  unfolding one_at_a_time_def
proof (intro ballI impI)
  fix a b
  assume a: "a \<in> set (managed (s\<lparr>entries := (entries s)(k := l)\<rparr>))"
    and b: "b \<in> set (managed (s\<lparr>entries := (entries s)(k := l)\<rparr>))"
    and open_both: "status (entries (s\<lparr>entries := (entries s)(k := l)\<rparr>) a) \<noteq> Closed
         \<and> status (entries (s\<lparr>entries := (entries s)(k := l)\<rparr>) b) \<noteq> Closed"
  have "a = k"
  proof (rule ccontr)
    assume "a \<noteq> k"
    with a assms have "status (entries s a) = Closed" by simp
    with \<open>a \<noteq> k\<close> open_both show False by simp
  qed
  moreover have "b = k"
  proof (rule ccontr)
    assume "b \<noteq> k"
    with b assms have "status (entries s b) = Closed" by simp
    with \<open>b \<noteq> k\<close> open_both show False by simp
  qed
  ultimately show "a = b" by simp
qed

lemma one_at_a_time_unmanaged:
  assumes "one_at_a_time s" and "k \<notin> set (managed s)"
  shows "one_at_a_time (s\<lparr>entries := (entries s)(k := l)\<rparr>)"
  unfolding one_at_a_time_def
proof (intro ballI impI)
  fix a b
  assume a: "a \<in> set (managed (s\<lparr>entries := (entries s)(k := l)\<rparr>))"
    and b: "b \<in> set (managed (s\<lparr>entries := (entries s)(k := l)\<rparr>))"
    and open_both: "status (entries (s\<lparr>entries := (entries s)(k := l)\<rparr>) a) \<noteq> Closed
         \<and> status (entries (s\<lparr>entries := (entries s)(k := l)\<rparr>) b) \<noteq> Closed"
  from a b assms(2) have "a \<noteq> k" "b \<noteq> k" by auto
  with open_both have "status (entries s a) \<noteq> Closed \<and> status (entries s b) \<noteq> Closed"
    by simp
  moreover from a b have "a \<in> set (managed s)" "b \<in> set (managed s)" by simp_all
  ultimately show "a = b" using assms(1) unfolding one_at_a_time_def by blast
qed

lemma one_at_a_time_others:
  assumes "one_at_a_time s" and "k \<in> set (managed s)" and "status (entries s k) \<noteq> Closed"
  shows "\<forall>j \<in> set (managed s). j \<noteq> k \<longrightarrow> status (entries s j) = Closed"
  using assms unfolding one_at_a_time_def by blast

lemma fire_one_at_a_time:
  assumes inv: "one_at_a_time s"
  shows "one_at_a_time (fire a s)"
proof -
  consider (same) "fire a s = s"
    | (opens) k dat where "fire a s = openWindow k dat s"
    | (closes) k dat where "fire a s = closeWindow k dat s"
    | (step) k where "fire a s = s\<lparr>entries := (entries s)(k := step_done (entries s k))\<rparr>"
    using fire_effect [of a s] by blast
  then show ?thesis
  proof cases
    case same
    with inv show ?thesis by simp
  next
    case opens
    show ?thesis
    proof (cases "k \<in> set (managed s) \<and> list_all (\<lambda>j. status (entries s j) = Closed) (managed s)")
      case True
      then have closed: "\<forall>j \<in> set (managed s). j \<noteq> k \<longrightarrow> status (entries s j) = Closed"
        by (simp add: list_all_iff)
      have "fire a s = s\<lparr>entries := (entries s)(k := window_setup (window_ready (mark Opened) dat) dat (entries s k))\<rparr>"
        using opens True by (simp add: openWindow_def)
      then show ?thesis using closed by (simp add: one_at_a_time_update)
    next
      case False
      then have "fire a s = s" unfolding opens openWindow_def by presburger
      with inv show ?thesis by simp
    qed
  next
    case closes
    show ?thesis
    proof (cases "k \<in> set (managed s) \<and> status (entries s k) = Opened")
      case True
      then have "k \<in> set (managed s)" and "status (entries s k) \<noteq> Closed" by simp_all
      with inv have others: "\<forall>j \<in> set (managed s). j \<noteq> k \<longrightarrow> status (entries s j) = Closed"
        by (rule one_at_a_time_others)
      have "fire a s = s\<lparr>entries := (entries s)(k := window_hold (window_teardown (mark Closed) dat) dat (entries s k))\<rparr>"
        using closes True by (simp add: closeWindow_def)
      then show ?thesis using others by (simp add: one_at_a_time_update)
    next
      case False
      then have "fire a s = s" unfolding closes closeWindow_def by presburger
      with inv show ?thesis by simp
    qed
  next
    case step
    show ?thesis
    proof (cases "k \<in> set (managed s)")
      case False
      with inv show ?thesis unfolding step by (rule one_at_a_time_unmanaged)
    next
      case True
      show ?thesis
      proof (cases "status (entries s k) = Closed")
        case closed: True
        then have "step_done (entries s k) = entries s k" by (rule step_done_closed)
        then have "fire a s = s" unfolding step by simp
        with inv show ?thesis by simp
      next
        case False
        with inv True
        have "\<forall>j \<in> set (managed s). j \<noteq> k \<longrightarrow> status (entries s j) = Closed"
          by (rule one_at_a_time_others)
        then show ?thesis unfolding step by (rule one_at_a_time_update)
      qed
    qed
  qed
qed

lemma run_one_at_a_time: "one_at_a_time s \<Longrightarrow> one_at_a_time (run actions s)"
  by (induction actions arbitrary: s) (simp_all add: fire_one_at_a_time)

lemma managed_run: "managed (run actions s) = managed s"
  by (induction actions arbitrary: s) (simp_all add: managed_fire)

text \<open>
  C7. For every window manager and every state its lifecycle state machine reaches from a
  state in which all its windows are closed, at most one of the windows it manages is open
  or on its way to being opened or closed.
\<close>

theorem one_window_at_a_time:
  "list_all (\<lambda>k. status (entries s k) = Closed) (managed s) \<longrightarrow>
     (\<forall>a \<in> set (managed s). \<forall>b \<in> set (managed s).
        status (entries (run actions s) a) \<noteq> Closed
        \<and> status (entries (run actions s) b) \<noteq> Closed \<longrightarrow> a = b)"
proof
  assume "list_all (\<lambda>k. status (entries s k) = Closed) (managed s)"
  then have "one_at_a_time s" by (simp add: one_at_a_time_def list_all_iff)
  then have "one_at_a_time (run actions s)" by (rule run_one_at_a_time)
  then show "\<forall>a \<in> set (managed s). \<forall>b \<in> set (managed s).
        status (entries (run actions s) a) \<noteq> Closed
        \<and> status (entries (run actions s) b) \<noteq> Closed \<longrightarrow> a = b"
    by (simp add: one_at_a_time_def managed_run)
qed

theorem one_window_at_a_time_witness:
  "list_all (\<lambda>k. status (entries example_manager k) = Closed) (managed example_manager)
   \<and> status (entries (run [WindowOpen 1 ''x'', OpenWindow 2 ''y''] example_manager) 1) \<noteq> Closed
   \<and> status (entries (run [WindowOpen 1 ''x'', OpenWindow 2 ''y''] example_manager) 2) = Closed"
proof -
  let ?s = "run [WindowOpen 1 ''x'', OpenWindow 2 ''y''] example_manager"
  have h: "list_all (\<lambda>k. status (entries example_manager k) = Closed) (managed example_manager)"
    by (simp add: example_manager_def example_window_def)
  note t = one_window_at_a_time
    [where s = example_manager and actions = "[WindowOpen 1 ''x'', OpenWindow 2 ''y'']"]
  from t h have all: "\<forall>a \<in> set (managed example_manager). \<forall>b \<in> set (managed example_manager).
        status (entries ?s a) \<noteq> Closed \<and> status (entries ?s b) \<noteq> Closed \<longrightarrow> a = b"
    by blast
  have m: "(1::nat) \<in> set (managed example_manager)" "(2::nat) \<in> set (managed example_manager)"
    by (simp_all add: example_manager_def)
  have one: "status (entries ?s 1) \<noteq> Closed" by (simp add: lifecycle_defs)
  have two: "status (entries ?s 2) = Closed"
  proof (rule ccontr)
    assume "status (entries ?s 2) \<noteq> Closed"
    with all m one have "(1::nat) = 2" by blast
    then show False by simp
  qed
  from h one two show ?thesis by blast
qed

subsection \<open>A stage that has started runs to completion\<close>




































end
